theory Spec2Isabelle
  imports Complex_Main "HOL-Library.Multiset"
begin

section \<open>The top.gg scraper (\<^verbatim>\<open>src/index.js\<close>)\<close>

text \<open>
  The module exports one operation, \<^verbatim>\<open>Get = getServers\<close>. It plans page sizes
  (\<^verbatim>\<open>chunks\<close>), builds one URL per page (\<^verbatim>\<open>getUrl\<close>), requests the pages one after
  the other (\<^verbatim>\<open>req2await\<close>), concatenates the \<^verbatim>\<open>results\<close> arrays and post-processes the
  list (\<^verbatim>\<open>parseServers\<close>: \<^verbatim>\<open>simplify\<close>, \<^verbatim>\<open>sort(compare)\<close>, \<^verbatim>\<open>filter\<close>, \<^verbatim>\<open>write\<close>).

  Every function of the source is \<^verbatim>\<open>async\<close> and every call is awaited, so one invocation
  runs its steps in program order; the embedding is that sequential program, with the
  network, the file system and the console as an explicit world. The loop variables of the
  source (\<^verbatim>\<open>skip\<close>, \<^verbatim>\<open>chunkList\<close>, \<^verbatim>\<open>i\<close>, ...) are undeclared and therefore global: what
  follows is about one run at a time, not about overlapping calls of \<^verbatim>\<open>Get\<close>.
\<close>

subsection \<open>Values and records of the JavaScript program\<close>

text \<open>
  The property values the program touches: a number (the counts of the API are integers,
  and an integer below \<open>2^53\<close> is exact in a JavaScript number), a string, or
  \<^verbatim>\<open>undefined\<close>, which is also what reading an absent property gives. An object is the
  list of its own properties in insertion order.
\<close>

datatype jsval = Undefined | Num int | Str string

type_synonym obj = "(string \<times> jsval) list"

text \<open>Property read \<^verbatim>\<open>o.k\<close>: \<^verbatim>\<open>undefined\<close> when the object has no such property.\<close>

definition get_prop :: "obj \<Rightarrow> string \<Rightarrow> jsval" where
  "get_prop ob k = (case map_of ob k of None \<Rightarrow> Undefined | Some v \<Rightarrow> v)"

text \<open>
  The second argument of \<^verbatim>\<open>Get\<close>: \<^verbatim>\<open>options.tags\<close> and \<^verbatim>\<open>options.query\<close>, \<open>None\<close> when the
  property is absent.
\<close>

record options =
  tags :: "string option"
  query :: "string option"

text \<open>
  The third argument of \<^verbatim>\<open>Get\<close>. A flag is \<open>True\<close> exactly when the source's test
  \<^verbatim>\<open>extras.flag === true\<close> succeeds; \<^verbatim>\<open>filterSize\<close> is the value as given
  (\<^verbatim>\<open>undefined\<close> when absent); \<^verbatim>\<open>file\<close> is \<open>None\<close> when \<^verbatim>\<open>extras.file != null\<close> fails.
\<close>

record extras =
  simplify_opt :: bool
  sort_opt :: bool
  filter_opt :: bool
  filterSize :: jsval
  write_opt :: bool
  file_opt :: "string option"

text \<open>What \<^verbatim>\<open>getUrl\<close> returns: \<^verbatim>\<open>{url, skip}\<close>.\<close>

record page =
  url :: string
  skip :: int

subsection \<open>The world outside the module\<close>

text \<open>
  What a run can fail with: the transport's error on a page request, a body that fails to
  parse, and the exception \<^verbatim>\<open>fs.writeFile\<close> throws when it refuses its arguments.
\<close>

datatype error = NetworkError | ParseError | WriteException

text \<open>
  The three ways a call of \<^verbatim>\<open>fs.writeFile(path, content, callback)\<close> ends: the file is
  written and the callback gets no error; the write fails and the callback gets the
  error; or the call itself throws before any write is started (a path with a NUL byte,
  for one), and the callback never runs.
\<close>

datatype write_answer = Written | CallbackError string | Thrown

text \<open>
  The capabilities the module consumes and does not define: the \<^verbatim>\<open>request\<close> library
  (the reply to a request, given how many were made before it and its URL: an error or a
  body),
  \<^verbatim>\<open>JSON.parse(body).results\<close> (a parse error or the array of records),
  \<^verbatim>\<open>JSON.stringify(array, null, 2)\<close>, \<^verbatim>\<open>fs.writeFile\<close> (its answer for a path and a
  content), and the runtime's comparison of values of which one is a string. A body whose
  \<^verbatim>\<open>results\<close> is not an array of records is not represented.
\<close>

record env =
  request :: "nat \<Rightarrow> string \<Rightarrow> error + string"
  json_results :: "string \<Rightarrow> error + obj list"
  json_stringify :: "obj list \<Rightarrow> string"
  fs_writeFile :: "string \<Rightarrow> string \<Rightarrow> write_answer"
  string_lt :: "jsval \<Rightarrow> jsval \<Rightarrow> bool"

text \<open>
  The relational operators \<^verbatim>\<open><\<close> and \<^verbatim>\<open>>\<close>. On two numbers they are the numeric order.
  \<^verbatim>\<open>undefined\<close> converts to \<^verbatim>\<open>NaN\<close>, and every comparison with \<^verbatim>\<open>NaN\<close> is false. When
  an operand is a string and none is \<^verbatim>\<open>undefined\<close>, the runtime converts the string to a
  number, or compares two strings by code units: that answer is the capability
  \<open>string_lt\<close> above. \<^verbatim>\<open>x > y\<close> is \<^verbatim>\<open>y < x\<close>.
\<close>

fun js_lt :: "env \<Rightarrow> jsval \<Rightarrow> jsval \<Rightarrow> bool" where
  "js_lt e (Num a) (Num b) = (a < b)"
| "js_lt e Undefined y = False"
| "js_lt e x Undefined = False"
| "js_lt e x y = string_lt e x y"

definition js_gt :: "env \<Rightarrow> jsval \<Rightarrow> jsval \<Rightarrow> bool" where
  "js_gt e x y = js_lt e y x"

text \<open>
  Orderedness is stated below with \<open>num_ge\<close>: both values are numbers, and the first is
  at least the second (on numbers, \<^verbatim>\<open>x >= y\<close>).
\<close>

fun num_ge :: "jsval \<Rightarrow> jsval \<Rightarrow> bool" where
  "num_ge (Num a) (Num b) = (b \<le> a)"
| "num_ge _ _ = False"

text \<open>
  What a run changes outside itself: the URLs requested so far, the files written, and the
  lines printed by \<^verbatim>\<open>console.log\<close>.
\<close>

record world =
  requested :: "string list"
  files :: "string \<rightharpoonup> string"
  console :: "string list"

subsection \<open>Numbers in a template literal\<close>

text \<open>
  \<^verbatim>\<open>${a}\<close> on an integer prints its decimal digits, with a leading minus sign when it is
  negative (the exponent notation starts at \<open>10^21\<close>, far above any count a run can reach).
\<close>

definition digit :: "nat \<Rightarrow> char" where
  "digit d = ''0123456789'' ! d"

fun nat_str :: "nat \<Rightarrow> string" where
  "nat_str n = (if n < 10 then [digit n] else nat_str (n div 10) @ [digit (n mod 10)])"

declare nat_str.simps [simp del]

definition num_str :: "int \<Rightarrow> string" where
  "num_str i = (if i < 0 then CHR ''-'' # nat_str (nat (- i)) else nat_str (nat i))"

subsection \<open>\<^verbatim>\<open>chunks\<close> (lines 86-94)\<close>

text \<open>
  \<^verbatim>\<open>while (amount > split) { chunks.push(split); amount -= split; } chunks.push(amount);\<close>
  The loop does not end when \<^verbatim>\<open>split\<close> is not positive and \<^verbatim>\<open>amount\<close> exceeds it, so the
  result is an option: \<open>None\<close> is the run that never returns. Amounts are integers (the
  documented parameter type); the subtraction is exact on every amount whose chunk list
  fits in an array.
\<close>

partial_function (option) chunks_loop :: "int \<Rightarrow> int \<Rightarrow> int list \<Rightarrow> int list option" where
  "chunks_loop amount split acc =
     (if amount > split then chunks_loop (amount - split) split (acc @ [split])
      else Some (acc @ [amount]))"

declare chunks_loop.simps [code]

definition chunks :: "int \<Rightarrow> int \<Rightarrow> int list option" where
  "chunks amount split = chunks_loop amount split []"

text \<open>The default parameter \<^verbatim>\<open>split = 1000\<close>; \<^verbatim>\<open>getServers\<close> calls \<^verbatim>\<open>chunks(amount)\<close>.\<close>

definition chunks_default :: "int \<Rightarrow> int list option" where
  "chunks_default amount = chunks amount 1000"

subsection \<open>\<^verbatim>\<open>getUrl\<close> (lines 149-160)\<close>

definition getUrl :: "int \<Rightarrow> int \<Rightarrow> string option \<Rightarrow> string option \<Rightarrow> page" where
  "getUrl a s t q =
     (let tags_s = (case t of None \<Rightarrow> '''' | Some tv \<Rightarrow> ''tags='' @ tv @ ''&'');
          query_s = (case q of None \<Rightarrow> '''' | Some qv \<Rightarrow> ''q='' @ qv @ ''&'')
      in \<lparr> url = ''https://top.gg/api/client/entities/search?'' @ query_s @ tags_s
                 @ ''platform=discord&entityType=server&amount='' @ num_str a
                 @ ''&skip='' @ num_str s,
           skip = a \<rparr>)"

subsection \<open>\<^verbatim>\<open>simplify\<close> (lines 129-139)\<close>

text \<open>The loop over the indices of \<^verbatim>\<open>json\<close>, pushing one three-property object each time.\<close>

fun simplify_loop :: "obj list \<Rightarrow> obj list \<Rightarrow> obj list" where
  "simplify_loop [] SL = SL"
| "simplify_loop (s # rest) SL =
     simplify_loop rest
       (SL @ [[(''_id'', get_prop s ''id''),
               (''name'', get_prop s ''name''),
               (''members'', get_prop s ''memberCount'')]])"

definition simplify :: "obj list \<Rightarrow> obj list" where
  "simplify json = simplify_loop json []"

subsection \<open>\<^verbatim>\<open>compare\<close> (lines 114-122) and \<^verbatim>\<open>Array.prototype.sort\<close>\<close>

definition compare :: "env \<Rightarrow> obj \<Rightarrow> obj \<Rightarrow> int" where
  "compare e a b =
     (if js_lt e (get_prop a ''members'') (get_prop b ''members'') then 1
      else if js_gt e (get_prop a ''members'') (get_prop b ''members'') then - 1
      else 0)"

text \<open>
  \<^verbatim>\<open>array.sort(cmp)\<close> is stable: \<open>x\<close> stays before \<open>y\<close> unless \<open>cmp x y > 0\<close>. It is
  modelled by the stable insertion sort, which every stable sort agrees with when the
  comparator is consistent (as it is on numbers, and when it is constantly \<open>0\<close>). The
  source sorts the array in place; the sorted array is the value passed on.
\<close>

fun insert_by :: "('a \<Rightarrow> 'a \<Rightarrow> int) \<Rightarrow> 'a \<Rightarrow> 'a list \<Rightarrow> 'a list" where
  "insert_by cmp x [] = [x]"
| "insert_by cmp x (y # ys) = (if cmp x y \<le> 0 then x # y # ys else y # insert_by cmp x ys)"

definition array_sort :: "('a \<Rightarrow> 'a \<Rightarrow> int) \<Rightarrow> 'a list \<Rightarrow> 'a list" where
  "array_sort cmp xs = foldr (insert_by cmp) xs []"

subsection \<open>\<^verbatim>\<open>write\<close> (lines 101-106)\<close>

text \<open>
  \<^verbatim>\<open>fs.writeFile(file, JSON.stringify(array, null, 2), function (err) { if (err) return
  console.log(err); })\<close>: the file is replaced, or the callback prints the error. The call
  is not inside a \<^verbatim>\<open>try\<close>, so when \<^verbatim>\<open>fs.writeFile\<close> throws, \<^verbatim>\<open>write\<close> rejects with that
  exception. The callback runs after \<^verbatim>\<open>write\<close> has returned; its effect is recorded in the
  world at the call.
\<close>

definition write_out :: "env \<Rightarrow> world \<Rightarrow> string \<Rightarrow> obj list \<Rightarrow> error + world" where
  "write_out e w f array =
     (let content = json_stringify e array
      in case fs_writeFile e f content of
           Written \<Rightarrow> Inr (w \<lparr> files := (files w)(f \<mapsto> content) \<rparr>)
         | CallbackError err \<Rightarrow> Inr (w \<lparr> console := console w @ [err] \<rparr>)
         | Thrown \<Rightarrow> Inl WriteException)"

subsection \<open>\<^verbatim>\<open>parseServers\<close> (lines 44-62)\<close>

text \<open>
  The four stages in order. \<^verbatim>\<open>await write(extras.file, L)\<close> passes a rejection of \<^verbatim>\<open>write\<close>
  on to the caller; otherwise \<^verbatim>\<open>L\<close> is returned.
\<close>

definition parseServers ::
  "env \<Rightarrow> world \<Rightarrow> obj list \<Rightarrow> extras \<Rightarrow> (error + obj list) \<times> world" where
  "parseServers e w json ex =
     (let SL = (if simplify_opt ex then simplify json else json);
          SL' = (if sort_opt ex then array_sort (compare e) SL else SL);
          L = (if filter_opt ex \<and> js_gt e (filterSize ex) (Num 0)
               then filter (\<lambda>s. js_gt e (get_prop s ''members'') (filterSize ex)) SL'
               else SL')
      in if write_opt ex \<and> file_opt ex \<noteq> None
         then (case write_out e w (the (file_opt ex)) L of
                 Inl err \<Rightarrow> (Inl err, w)
               | Inr w' \<Rightarrow> (Inr L, w'))
         else (Inr L, w))"

subsection \<open>\<^verbatim>\<open>req2await\<close> (lines 68-78) and \<^verbatim>\<open>getServers\<close> (lines 19-37)\<close>

definition req2await :: "env \<Rightarrow> world \<Rightarrow> string \<Rightarrow> (error + string) \<times> world" where
  "req2await e w u =
     (request e (length (requested w)) u, w \<lparr> requested := requested w @ [u] \<rparr>)"

text \<open>\<^verbatim>\<open>skip || 0\<close> on a number, and \<^verbatim>\<open>options.tags || null\<close> on an optional string.\<close>

definition or_zero :: "int \<Rightarrow> int" where
  "or_zero n = (if n = 0 then 0 else n)"

definition or_null :: "string option \<Rightarrow> string option" where
  "or_null v = (case v of None \<Rightarrow> None | Some s \<Rightarrow> if s = [] then None else Some s)"

text \<open>
  The loop \<^verbatim>\<open>for (i in chunkList)\<close>, with the running \<^verbatim>\<open>skip\<close> and \<^verbatim>\<open>serverList\<close>. A rejected
  request or a failed parse ends the run with that error.
\<close>

fun fetch_loop ::
  "env \<Rightarrow> options \<Rightarrow> int list \<Rightarrow> int \<Rightarrow> obj list \<Rightarrow> world \<Rightarrow> (error + obj list) \<times> world" where
  "fetch_loop e opts [] sk serverList w = (Inr serverList, w)"
| "fetch_loop e opts (c # cs) sk serverList w =
     (let ob = getUrl c (or_zero sk) (or_null (tags opts)) (or_null (query opts));
          sk' = sk + skip ob;
          (res, w') = req2await e w (url ob)
      in case res of
           Inl err \<Rightarrow> (Inl err, w')
         | Inr body \<Rightarrow>
             (case json_results e body of
                Inl err \<Rightarrow> (Inl err, w')
              | Inr list \<Rightarrow> fetch_loop e opts cs sk' (serverList @ list) w'))"

definition getServers ::
  "env \<Rightarrow> world \<Rightarrow> int \<Rightarrow> options \<Rightarrow> extras \<Rightarrow> ((error + obj list) \<times> world) option" where
  "getServers e w amount opts ex =
     (case chunks_default amount of
        None \<Rightarrow> None
      | Some chunkList \<Rightarrow>
          Some (case fetch_loop e opts chunkList 0 [] w of
                  (Inl err, w') \<Rightarrow> (Inl err, w')
                | (Inr serverList, w') \<Rightarrow> parseServers e w' serverList ex))"

subsection \<open>Default arguments and a concrete run\<close>

text \<open>The defaults \<^verbatim>\<open>options = {}\<close> and \<^verbatim>\<open>extras = {}\<close> of \<^verbatim>\<open>getServers\<close>.\<close>

definition no_options :: options where
  "no_options = \<lparr> tags = None, query = None \<rparr>"

definition no_extras :: extras where
  "no_extras = \<lparr> simplify_opt = False, sort_opt = False, filter_opt = False,
                 filterSize = Undefined, write_opt = False, file_opt = None \<rparr>"

text \<open>A record as the API returns it: \<^verbatim>\<open>{id, name, memberCount}\<close>.\<close>

definition server :: "string \<Rightarrow> string \<Rightarrow> int \<Rightarrow> obj" where
  "server i n m = [(''id'', Str i), (''name'', Str n), (''memberCount'', Num m)]"

text \<open>
  A remote that answers the first request with two servers and every later one with a
  third, a disk that takes every write, and a fresh world; the concrete instances of the
  theorems below run against them.
\<close>

definition sample_env :: env where
  "sample_env =
     \<lparr> request = (\<lambda>k u. Inr (if k = 0 then ''first'' else ''later'')),
       json_results = (\<lambda>b. Inr (if b = ''first''
                                  then [server ''1'' ''small'' 50, server ''2'' ''big'' 900]
                                  else [server ''3'' ''mid'' 300])),
       json_stringify = (\<lambda>a. ''[]''),
       fs_writeFile = (\<lambda>f c. Written),
       string_lt = (\<lambda>x y. False) \<rparr>"

definition new_world :: world where
  "new_world = \<lparr> requested = [], files = Map.empty, console = [] \<rparr>"








section \<open>The chunk planner\<close>

lemma chunks_loop_stop:
  "amount \<le> split \<Longrightarrow> chunks_loop amount split acc = Some (acc @ [amount])"
  by (simp add: chunks_loop.simps)

lemma chunks_loop_step:
  "split < amount \<Longrightarrow>
     chunks_loop amount split acc = chunks_loop (amount - split) split (acc @ [split])"
  by (subst chunks_loop.simps) simp

text \<open>A remainder \<open>r\<close> in \<open>1..split\<close> under \<open>k\<close> full pages: \<open>k\<close> rounds, then \<open>r\<close>.\<close>

lemma chunks_loop_full:
  "0 < split \<Longrightarrow> 0 < r \<Longrightarrow> r \<le> split \<Longrightarrow>
     chunks_loop (r + int k * split) split acc = Some (acc @ replicate k split @ [r])"
proof (induction k arbitrary: acc)
  case 0
  then show ?case by (simp add: chunks_loop_stop)
next
  case (Suc k)
  have gt: "split < r + int (Suc k) * split"
  proof -
    have "0 \<le> int k * split" using Suc.prems by simp
    then have "0 < r + int k * split" using Suc.prems by linarith
    then show ?thesis by (simp add: algebra_simps)
  qed
  have eq: "r + int (Suc k) * split - split = r + int k * split"
    by (simp add: algebra_simps)
  have "chunks_loop (r + int (Suc k) * split) split acc
        = chunks_loop (r + int k * split) split (acc @ [split])"
    using chunks_loop_step [OF gt, of acc] unfolding eq .
  also have "\<dots> = Some ((acc @ [split]) @ replicate k split @ [r])"
    using Suc.IH [of "acc @ [split]"] Suc.prems by simp
  finally show ?case by (simp add: replicate_app_Cons_same)
qed

lemma chunks_pos:
  assumes "0 < split" "0 < amount"
  shows "chunks amount split =
     Some (replicate (nat ((amount - 1) div split)) split @ [(amount - 1) mod split + 1])"
proof -
  let ?k = "nat ((amount - 1) div split)"
  let ?r = "(amount - 1) mod split + 1"
  have k: "int ?k = (amount - 1) div split"
    using assms by (simp add: pos_imp_zdiv_nonneg_iff)
  have "0 \<le> (amount - 1) mod split" "(amount - 1) mod split < split"
    using assms by simp_all
  then have r: "0 < ?r" "?r \<le> split"
    by linarith+
  have "amount = ?r + int ?k * split"
    unfolding k by (simp add: algebra_simps)
  then have "chunks amount split = chunks_loop (?r + int ?k * split) split []"
    by (simp add: chunks_def)
  also have "\<dots> = Some ([] @ replicate ?k split @ [?r])"
    using chunks_loop_full [OF assms(1) r] by blast
  finally show ?thesis by simp
qed

lemma chunks_small: "amount \<le> split \<Longrightarrow> chunks amount split = Some [amount]"
  by (simp add: chunks_def chunks_loop_stop)

lemma sum_list_replicate_int: "sum_list (replicate k (c::int)) = int k * c"
  by (induction k) (simp_all add: algebra_simps)

text \<open>
  C1. For every non-negative \<open>totalCount\<close>, \<^verbatim>\<open>chunks(totalCount)\<close> with the default page
  size 1000 returns, and the chunks it returns sum to \<open>totalCount\<close>.
\<close>

theorem chunks_sum:
  "0 \<le> totalCount \<Longrightarrow>
     \<exists>cs. chunks_default totalCount = Some cs \<and> sum_list cs = totalCount"
proof (cases "totalCount = 0")
  case True
  then show ?thesis by (simp add: chunks_default_def chunks_small)
next
  case False
  assume "0 \<le> totalCount"
  with False have pos: "0 < totalCount" by simp
  let ?k = "nat ((totalCount - 1) div 1000)"
  have k: "int ?k = (totalCount - 1) div 1000"
    using pos by (simp add: pos_imp_zdiv_nonneg_iff)
  have "chunks_default totalCount =
          Some (replicate ?k 1000 @ [(totalCount - 1) mod 1000 + 1])"
    unfolding chunks_default_def using chunks_pos [of 1000 totalCount] pos by simp
  moreover have "sum_list (replicate ?k (1000::int) @ [(totalCount - 1) mod 1000 + 1])
                 = totalCount"
    unfolding sum_list_append sum_list_replicate_int k by simp
  ultimately show ?thesis by simp
qed

theorem chunks_sum_witness:
  "(0::int) \<le> 2500 \<and> (\<exists>cs. chunks_default 2500 = Some cs \<and> sum_list cs = 2500)
   \<and> chunks_default 2500 = Some [1000, 1000, 500]"
proof -
  have h: "(0::int) \<le> 2500" by simp
  have "chunks_default 2500 = Some [1000, 1000, 500]" by code_simp
  then show ?thesis using h chunks_sum [OF h] by simp
qed

text \<open>
  C2. The specification has 2000 give \<open>[1000, 1000, 0]\<close>. The loop runs while
  \<^verbatim>\<open>amount > split\<close>, so it stops at \<open>amount = split\<close> and the last chunk is a full page.
\<close>

theorem chunks_2000_counterexample: "chunks 2000 1000 \<noteq> Some [1000, 1000, 0]"
  by code_simp

text \<open>
  C2, as the code has it: an exact non-zero multiple \<open>k * cap\<close> of the page size gives
  \<open>k\<close> full pages and no trailing zero-size chunk; 2000 gives \<open>[1000, 1000]\<close>.
\<close>

theorem chunks_exact_multiple:
  assumes "0 < cap" and "0 < k"
  shows "chunks (int k * cap) cap = Some (replicate k cap)"
proof -
  obtain j where j: "k = Suc j" using assms(2) by (cases k) auto
  have "chunks (int k * cap) cap = chunks_loop (cap + int j * cap) cap []"
    by (simp add: chunks_def j algebra_simps)
  also have "\<dots> = Some ([] @ replicate j cap @ [cap])"
    using chunks_loop_full [of cap cap j "[]"] assms(1) by simp
  finally show ?thesis by (simp add: j replicate_append_same)
qed

theorem chunks_exact_multiple_witness:
  "(0::int) < 1000 \<and> (0::nat) < 2 \<and> chunks 2000 1000 = Some [1000, 1000]"
proof -
  have c: "(0::int) < 1000" and k: "(0::nat) < 2" by simp_all
  have "replicate 2 (1000::int) = [1000, 1000]" by (simp add: numeral_2_eq_2)
  then show ?thesis using chunks_exact_multiple [OF c k] by simp
qed

text \<open>
  C4. The specification has a negative \<open>totalCount\<close> fail with an invalid-argument
  error. \<^verbatim>\<open>chunks\<close> has no check and no \<^verbatim>\<open>throw\<close>: \<open>-5\<close> is not above 1000, the loop body
  never runs and \<open>[-5]\<close> is returned.
\<close>

theorem chunks_negative_counterexample: "chunks_default (- 5) = Some [- 5]"
  by code_simp

lemma write_out_requested: "write_out e w f array = Inr w' \<Longrightarrow> requested w' = requested w"
  by (auto simp: write_out_def Let_def split: write_answer.splits)

text \<open>
  \<^verbatim>\<open>parseServers\<close> computes its list \<open>L\<close> without touching the world, and then either
  returns it or hands it to \<^verbatim>\<open>write\<close>; \<open>L\<close> is what the same call returns with \<^verbatim>\<open>write\<close>
  switched off.
\<close>

lemma parseServers_shape:
  "\<exists>L. parseServers e w json (ex \<lparr> write_opt := False \<rparr>) = (Inr L, w)
     \<and> parseServers e w json ex =
         (if write_opt ex \<and> file_opt ex \<noteq> None
          then (case write_out e w (the (file_opt ex)) L of
                  Inl err \<Rightarrow> (Inl err, w)
                | Inr w' \<Rightarrow> (Inr L, w'))
          else (Inr L, w))"
  unfolding parseServers_def Let_def
  apply (rule exI, rule conjI)
   prefer 2
   apply (rule refl)
  apply simp
  done

lemma parseServers_requested: "requested (snd (parseServers e w json ex)) = requested w"
proof -
  obtain L where p: "parseServers e w json ex =
         (if write_opt ex \<and> file_opt ex \<noteq> None
          then (case write_out e w (the (file_opt ex)) L of
                  Inl err \<Rightarrow> (Inl err, w)
                | Inr w' \<Rightarrow> (Inr L, w'))
          else (Inr L, w))"
    using parseServers_shape [of e w json ex] by blast
  show ?thesis
  proof (cases "write_opt ex \<and> file_opt ex \<noteq> None")
    case False
    then have "parseServers e w json ex = (Inr L, w)" unfolding p by (rule if_not_P)
    then show ?thesis by simp
  next
    case True
    then have q: "parseServers e w json ex =
                    (case write_out e w (the (file_opt ex)) L of
                       Inl err \<Rightarrow> (Inl err, w)
                     | Inr w' \<Rightarrow> (Inr L, w'))"
      unfolding p by (rule if_P)
    show ?thesis
    proof (cases "write_out e w (the (file_opt ex)) L")
      case (Inl err)
      then show ?thesis unfolding q by simp
    next
      case (Inr w')
      then show ?thesis unfolding q using write_out_requested [OF Inr] by simp
    qed
  qed
qed

lemma or_zero_id: "or_zero n = n"
  by (simp add: or_zero_def)

lemma getUrl_skip: "skip (getUrl a s t q) = a"
  by (simp add: getUrl_def Let_def)

text \<open>
  C4, as the code has it: for a negative \<open>totalCount\<close> the planner returns the one chunk
  \<open>[totalCount]\<close>, and \<^verbatim>\<open>Get\<close> goes on to request that page (amount \<open>totalCount\<close>, skip 0)
  and nothing else; \<^verbatim>\<open>chunks\<close> checks nothing and throws nothing.
\<close>

theorem chunks_negative:
  assumes "totalCount < 0"
  shows "chunks_default totalCount = Some [totalCount]
       \<and> (\<exists>r w'. getServers e w totalCount opts ex = Some (r, w')
            \<and> requested w' = requested w @
                 [url (getUrl totalCount 0 (or_null (tags opts)) (or_null (query opts)))])"
proof -
  have c: "chunks_default totalCount = Some [totalCount]"
    using assms by (simp add: chunks_default_def chunks_small)
  let ?u = "url (getUrl totalCount 0 (or_null (tags opts)) (or_null (query opts)))"
  obtain r0 w0 where f: "fetch_loop e opts [totalCount] 0 [] w = (r0, w0)"
    by (cases "fetch_loop e opts [totalCount] 0 [] w") auto
  have rq: "requested w0 = requested w @ [?u]"
    using f by (auto simp: Let_def req2await_def or_zero_id split: sum.splits)
  show ?thesis
  proof (cases r0)
    case (Inl err)
    then show ?thesis using c f rq by (simp add: getServers_def)
  next
    case (Inr serverList)
    obtain r1 w1 where p: "parseServers e w0 serverList ex = (r1, w1)"
      by (cases "parseServers e w0 serverList ex") auto
    have "requested w1 = requested w0"
      using parseServers_requested [of e w0 serverList ex] p by simp
    then show ?thesis using c f rq Inr p by (simp add: getServers_def)
  qed
qed

theorem chunks_negative_witness:
  "(- 5 :: int) < 0 \<and> chunks_default (- 5) = Some [- 5]
   \<and> (\<exists>r w'. getServers sample_env new_world (- 5) no_options no_extras = Some (r, w')
        \<and> requested w' =
          [''https://top.gg/api/client/entities/search?platform=discord&entityType=server&amount=-5&skip=0''])"
proof -
  have h: "(- 5 :: int) < 0" by simp
  have u: "url (getUrl (- 5) 0 None None) =
    ''https://top.gg/api/client/entities/search?platform=discord&entityType=server&amount=-5&skip=0''"
    by code_simp
  show ?thesis
    using h chunks_negative [OF h, of sample_env new_world no_options no_extras] u
    by (simp add: or_null_def no_options_def new_world_def)
qed

lemma neg_div_1000: "- (- n div 1000) = (n - 1) div 1000 + (1::int)"
proof -
  obtain q r where q: "q = (n - 1) div 1000" and r: "r = (n - 1) mod 1000" by simp
  have d: "n - 1 = 1000 * q + r" unfolding q r by simp
  have rb: "0 \<le> r" "r < 1000" unfolding r by simp_all
  have "- n = 1000 * (- q - 1) + (999 - r)" using d by simp
  moreover have "0 \<le> 999 - r" "999 - r < 1000" using rb by simp_all
  ultimately have "- n div 1000 = - q - 1" by (rule int_div_pos_eq)
  then show ?thesis unfolding q by simp
qed

lemma pred_mod_1000:
  assumes "(n::int) mod 1000 = 0" shows "(n - 1) mod 1000 = 999"
proof -
  obtain q where q: "n = 1000 * q" using assms by (auto simp: mod_eq_0_iff_dvd)
  have "n - 1 = 1000 * (q - 1) + 999" unfolding q by simp
  moreover have "(0::int) \<le> 999" "(999::int) < 1000" by simp_all
  ultimately show ?thesis by (rule int_mod_pos_eq)
qed

text \<open>
  C10. For every \<open>totalCount > 0\<close> the planner returns \<open>\<lceil>totalCount / 1000\<rceil>\<close> chunks, each
  between 1 and 1000; when \<open>totalCount\<close> is a multiple of 1000 the last chunk is 1000, so no
  zero-size chunk (and no zero-amount request) exists for a positive \<open>totalCount\<close>.
\<close>

theorem chunks_count_and_bounds:
  assumes "0 < totalCount"
  shows "\<exists>cs. chunks_default totalCount = Some cs
           \<and> int (length cs) = \<lceil>real_of_int totalCount / 1000\<rceil>
           \<and> (\<forall>c \<in> set cs. 1 \<le> c \<and> c \<le> 1000)
           \<and> 0 \<notin> set cs
           \<and> (totalCount mod 1000 = 0 \<longrightarrow> last cs = 1000)"
proof -
  let ?k = "nat ((totalCount - 1) div 1000)"
  let ?r = "(totalCount - 1) mod 1000 + 1"
  let ?cs = "replicate ?k 1000 @ [?r]"
  have k: "int ?k = (totalCount - 1) div 1000"
    using assms by (simp add: pos_imp_zdiv_nonneg_iff)
  have cs: "chunks_default totalCount = Some ?cs"
    unfolding chunks_default_def using chunks_pos [of 1000 totalCount] assms by simp
  have r: "1 \<le> ?r" "?r \<le> 1000"
    by (simp_all add: zle_add1_eq_le [symmetric])
  have len: "int (length ?cs) = \<lceil>real_of_int totalCount / 1000\<rceil>"
  proof -
    have "\<lceil>real_of_int totalCount / real_of_int 1000\<rceil> = - (- totalCount div 1000)"
      by (rule ceiling_divide_eq_div)
    moreover have "- (- totalCount div 1000) = (totalCount - 1) div 1000 + 1"
      by (rule neg_div_1000)
    ultimately show ?thesis using k by simp
  qed
  have bounds: "\<forall>c \<in> set ?cs. 1 \<le> c \<and> c \<le> 1000"
    using r by auto
  then have nz: "0 \<notin> set ?cs" by fastforce
  have lst: "totalCount mod 1000 = 0 \<longrightarrow> last ?cs = 1000"
  proof
    assume "totalCount mod 1000 = 0"
    then have "(totalCount - 1) mod 1000 = 999" by (rule pred_mod_1000)
    then show "last ?cs = 1000" by simp
  qed
  show ?thesis using cs len bounds nz lst by blast
qed

theorem chunks_count_and_bounds_witness:
  "(0::int) < 3000 \<and> (3000::int) mod 1000 = 0
   \<and> chunks_default 3000 = Some [1000, 1000, 1000]
   \<and> int (length [1000::int, 1000, 1000]) = \<lceil>real_of_int 3000 / 1000\<rceil>
   \<and> list_all (\<lambda>c. 1 \<le> c \<and> c \<le> 1000) [1000::int, 1000, 1000]
   \<and> last [1000::int, 1000, 1000] = 1000"
proof -
  have h: "(0::int) < 3000" by simp
  have ev: "chunks_default 3000 = Some [1000, 1000, 1000]" by code_simp
  obtain cs where cs: "chunks_default 3000 = Some cs"
    and len: "int (length cs) = \<lceil>real_of_int 3000 / 1000\<rceil>"
    and bounds: "\<forall>c \<in> set cs. 1 \<le> c \<and> c \<le> 1000"
    and lst: "(3000::int) mod 1000 = 0 \<longrightarrow> last cs = 1000"
    using chunks_count_and_bounds [OF h] by blast
  have eq: "cs = [1000, 1000, 1000]" using cs ev by simp
  have m: "(3000::int) mod 1000 = 0" by simp
  from lst m have l: "last cs = 1000" by (rule mp)
  from bounds have b: "list_all (\<lambda>c. 1 \<le> c \<and> c \<le> 1000) cs" by (simp add: list_all_iff)
  show ?thesis
    using h m ev len b l unfolding eq by simp
qed

section \<open>Post-processing\<close>

subsection \<open>Projection\<close>

lemma simplify_loop_map:
  "simplify_loop json SL =
     SL @ map (\<lambda>s. [(''_id'', get_prop s ''id''), (''name'', get_prop s ''name''),
                     (''members'', get_prop s ''memberCount'')]) json"
  by (induction json arbitrary: SL) simp_all

lemma simplify_map:
  "simplify json =
     map (\<lambda>s. [(''_id'', get_prop s ''id''), (''name'', get_prop s ''name''),
                (''members'', get_prop s ''memberCount'')]) json"
  by (simp add: simplify_def simplify_loop_map)

lemma simplify_members:
  "s \<in> set (simplify json) \<Longrightarrow>
     \<exists>r \<in> set json. get_prop s ''members'' = get_prop r ''memberCount''
                   \<and> map fst s = [''_id'', ''name'', ''members'']"
  by (auto simp: simplify_map get_prop_def)

text \<open>
  C6. With \<^verbatim>\<open>simplify\<close> enabled the projection stage returns one record per input record,
  in the same order; each has exactly the keys \<^verbatim>\<open>_id\<close>, \<^verbatim>\<open>name\<close>, \<^verbatim>\<open>members\<close>, holding the
  source record's \<^verbatim>\<open>id\<close>, \<^verbatim>\<open>name\<close> and \<^verbatim>\<open>memberCount\<close>.
\<close>

theorem simplify_projection:
  "fst (parseServers e w json (no_extras \<lparr> simplify_opt := True \<rparr>)) = Inr (simplify json)
   \<and> length (simplify json) = length json
   \<and> (\<forall>i < length json.
         map fst (simplify json ! i) = [''_id'', ''name'', ''members'']
       \<and> get_prop (simplify json ! i) ''_id'' = get_prop (json ! i) ''id''
       \<and> get_prop (simplify json ! i) ''name'' = get_prop (json ! i) ''name''
       \<and> get_prop (simplify json ! i) ''members'' = get_prop (json ! i) ''memberCount'')"
proof -
  have stage: "fst (parseServers e w json (no_extras \<lparr> simplify_opt := True \<rparr>))
                 = Inr (simplify json)"
    by (simp add: parseServers_def no_extras_def Let_def)
  have len: "length (simplify json) = length json"
    by (simp add: simplify_map)
  have recs: "\<forall>i < length json.
         map fst (simplify json ! i) = [''_id'', ''name'', ''members'']
       \<and> get_prop (simplify json ! i) ''_id'' = get_prop (json ! i) ''id''
       \<and> get_prop (simplify json ! i) ''name'' = get_prop (json ! i) ''name''
       \<and> get_prop (simplify json ! i) ''members'' = get_prop (json ! i) ''memberCount''"
    by (simp add: simplify_map get_prop_def)
  show ?thesis using stage len recs by blast
qed

theorem simplify_projection_witness:
  "simplify [server ''1'' ''small'' 50, server ''2'' ''big'' 900] =
     [[(''_id'', Str ''1''), (''name'', Str ''small''), (''members'', Num 50)],
      [(''_id'', Str ''2''), (''name'', Str ''big''), (''members'', Num 900)]]
   \<and> (1::nat) < length [server ''1'' ''small'' 50, server ''2'' ''big'' 900]
   \<and> map fst (simplify [server ''1'' ''small'' 50, server ''2'' ''big'' 900] ! 1)
       = [''_id'', ''name'', ''members'']
   \<and> get_prop (simplify [server ''1'' ''small'' 50, server ''2'' ''big'' 900] ! 1) ''members''
       = Num 900"
proof -
  have h: "(1::nat) < length [server ''1'' ''small'' 50, server ''2'' ''big'' 900]" by simp
  have v: "simplify [server ''1'' ''small'' 50, server ''2'' ''big'' 900] =
     [[(''_id'', Str ''1''), (''name'', Str ''small''), (''members'', Num 50)],
      [(''_id'', Str ''2''), (''name'', Str ''big''), (''members'', Num 900)]]"
    by (simp add: simplify_def server_def get_prop_def)
  have mc: "get_prop ([server ''1'' ''small'' 50, server ''2'' ''big'' 900] ! 1) ''memberCount''
              = Num 900"
    by (simp add: server_def get_prop_def)
  note at_1 = simplify_projection
      [of sample_env new_world "[server ''1'' ''small'' 50, server ''2'' ''big'' 900]",
       THEN conjunct2, THEN conjunct2, rule_format, OF h]
  note keys = at_1 [THEN conjunct1]
  note members = at_1 [THEN conjunct2, THEN conjunct2, THEN conjunct2]
  show ?thesis
    apply (intro conjI)
       apply (rule v)
      apply (rule h)
     apply (rule keys)
    apply (rule trans [OF members mc])
    done
qed

subsection \<open>Sorting\<close>

lemma set_insert_by: "set (insert_by cmp x ys) = insert x (set ys)"
  by (induction ys) auto

lemma mset_insert_by: "mset (insert_by cmp x ys) = add_mset x (mset ys)"
  by (induction ys) auto

lemma mset_array_sort: "mset (array_sort cmp xs) = mset xs"
  by (induction xs) (simp_all add: array_sort_def mset_insert_by)

lemma set_array_sort: "set (array_sort cmp xs) = set xs"
  using mset_array_sort [of cmp xs] by (metis set_mset_mset)

lemma array_sort_Cons: "array_sort cmp (x # xs) = insert_by cmp x (array_sort cmp xs)"
  by (simp add: array_sort_def)

lemma compare_numbers:
  "get_prop a ''members'' = Num m \<Longrightarrow> get_prop b ''members'' = Num n \<Longrightarrow>
     (compare e a b \<le> 0) = (n \<le> m)"
  by (auto simp: compare_def js_gt_def)

lemma js_lt_undefined: "js_lt e x Undefined = False"
  by (cases x) simp_all

lemma compare_undefined:
  "get_prop a ''members'' = Undefined \<Longrightarrow> compare e a b = 0"
  by (simp add: compare_def js_gt_def js_lt_undefined)

lemma desc_insert_by:
  assumes "\<forall>s \<in> set (x # ys). \<exists>m. get_prop s ''members'' = Num m"
    and "sorted_wrt (\<lambda>a b. num_ge (get_prop a ''members'') (get_prop b ''members'')) ys"
  shows "sorted_wrt (\<lambda>a b. num_ge (get_prop a ''members'') (get_prop b ''members''))
           (insert_by (compare e) x ys)"
  using assms
proof (induction ys)
  case Nil
  then show ?case by simp
next
  case (Cons y ys)
  obtain mx where mx: "get_prop x ''members'' = Num mx" using Cons.prems(1) by auto
  obtain my where my: "get_prop y ''members'' = Num my" using Cons.prems(1) by auto
  show ?case
  proof (cases "compare e x y \<le> 0")
    case True
    then have le: "my \<le> mx" using compare_numbers [OF mx my] by simp
    have "\<forall>z \<in> set ys. num_ge (get_prop x ''members'') (get_prop z ''members'')"
    proof
      fix z assume z: "z \<in> set ys"
      then obtain mz where mz: "get_prop z ''members'' = Num mz" using Cons.prems(1) by auto
      have "num_ge (get_prop y ''members'') (get_prop z ''members'')"
        using Cons.prems(2) z by simp
      then show "num_ge (get_prop x ''members'') (get_prop z ''members'')"
        using le by (simp add: mx my mz)
    qed
    then show ?thesis using True Cons.prems(2) le by (simp add: mx my)
  next
    case False
    then have lt: "mx < my" using compare_numbers [OF mx my] by simp
    have ih: "sorted_wrt (\<lambda>a b. num_ge (get_prop a ''members'') (get_prop b ''members''))
                (insert_by (compare e) x ys)"
      using Cons.IH Cons.prems by simp
    have "\<forall>z \<in> set (insert_by (compare e) x ys).
            num_ge (get_prop y ''members'') (get_prop z ''members'')"
      using Cons.prems(2) lt by (auto simp: set_insert_by mx my)
    then show ?thesis using False ih by simp
  qed
qed

lemma array_sort_descending:
  assumes "\<forall>s \<in> set xs. \<exists>m. get_prop s ''members'' = Num m"
  shows "sorted_wrt (\<lambda>a b. num_ge (get_prop a ''members'') (get_prop b ''members''))
           (array_sort (compare e) xs)"
  using assms
proof (induction xs)
  case Nil
  then show ?case by (simp add: array_sort_def)
next
  case (Cons x xs)
  have "\<forall>s \<in> set (x # array_sort (compare e) xs). \<exists>m. get_prop s ''members'' = Num m"
    using Cons.prems by (simp add: set_array_sort)
  then show ?case
    using Cons.IH Cons.prems desc_insert_by [of x "array_sort (compare e) xs" e]
    by (simp add: array_sort_Cons)
qed

text \<open>
  Records without a \<^verbatim>\<open>members\<close> property compare as equal, and the stable sort leaves
  them where they are.
\<close>

lemma array_sort_without_members:
  "\<forall>s \<in> set xs. get_prop s ''members'' = Undefined \<Longrightarrow> array_sort (compare e) xs = xs"
proof (induction xs)
  case Nil
  then show ?case by (simp add: array_sort_def)
next
  case (Cons x xs)
  then have "array_sort (compare e) xs = xs" by simp
  moreover have "insert_by (compare e) x xs = x # xs"
    using Cons.prems by (cases xs) (simp_all add: compare_undefined)
  ultimately show ?case by (simp add: array_sort_Cons)
qed

lemma server_members: "get_prop (server i n m) ''members'' = Undefined"
  by (simp add: server_def get_prop_def)

lemma server_memberCount: "get_prop (server i n m) ''memberCount'' = Num m"
  by (simp add: server_def get_prop_def)

text \<open>
  C3. The claim is that with \<^verbatim>\<open>sort\<close> enabled the output is in descending order of member
  count, also when \<^verbatim>\<open>simplify\<close> did not run. \<^verbatim>\<open>compare\<close> reads \<^verbatim>\<open>members\<close>, which only the
  projected records have: on the records of the API it reads \<^verbatim>\<open>undefined\<close> on both sides
  and answers 0, so \<^verbatim>\<open>{sort: true}\<close> alone returns the list as it came, here 50 before 900.
  The source documents the option as \<^verbatim>\<open>Sort the output by memberCount\<close>.
\<close>

theorem sort_without_simplify_unsorted:
  "fst (parseServers e w [server ''1'' ''small'' 50, server ''2'' ''big'' 900]
          (no_extras \<lparr> sort_opt := True \<rparr>))
     = Inr [server ''1'' ''small'' 50, server ''2'' ''big'' 900]
   \<and> \<not> sorted_wrt (\<lambda>a b. num_ge (get_prop a ''memberCount'') (get_prop b ''memberCount''))
         [server ''1'' ''small'' 50, server ''2'' ''big'' 900]"
proof -
  have "array_sort (compare e) [server ''1'' ''small'' 50, server ''2'' ''big'' 900]
          = [server ''1'' ''small'' 50, server ''2'' ''big'' 900]"
    by (rule array_sort_without_members) (simp add: server_members)
  then have r: "fst (parseServers e w [server ''1'' ''small'' 50, server ''2'' ''big'' 900]
                  (no_extras \<lparr> sort_opt := True \<rparr>))
        = Inr [server ''1'' ''small'' 50, server ''2'' ''big'' 900]"
    by (simp add: parseServers_def no_extras_def Let_def js_gt_def)
  show ?thesis unfolding r by (simp add: server_memberCount)
qed

subsection \<open>Filtering\<close>

text \<open>
  C5. The claim is that with \<^verbatim>\<open>filter\<close> enabled and a positive threshold every record whose
  member count exceeds the threshold is kept. The test is \<^verbatim>\<open>s.members > extras.filterSize\<close>;
  on a record of the API \<^verbatim>\<open>s.members\<close> is \<^verbatim>\<open>undefined\<close> and the test is false, so
  \<^verbatim>\<open>{filter: true, filterSize: 100}\<close> alone drops a server of 900 members. The source
  documents the option as \<^verbatim>\<open>Filter the output by memberCount\<close>.
\<close>

theorem filter_without_simplify_drops:
  "fst (parseServers e w [server ''2'' ''big'' 900]
          (no_extras \<lparr> filter_opt := True, filterSize := Num 100 \<rparr>)) = Inr []
   \<and> get_prop (server ''2'' ''big'' 900) ''memberCount'' = Num 900"
  by (simp add: parseServers_def no_extras_def Let_def js_gt_def server_members
      server_memberCount)

text \<open>
  What the two stages do once the records carry \<^verbatim>\<open>members\<close>: after \<^verbatim>\<open>simplify\<close>, sorting
  gives descending member counts, and the filter keeps exactly the records above a
  positive threshold, in the order they were in.
\<close>

lemma simplify_numeric:
  "\<forall>r \<in> set json. \<exists>m. get_prop r ''memberCount'' = Num m \<Longrightarrow>
   \<forall>s \<in> set (simplify json). \<exists>m. get_prop s ''members'' = Num m"
  by (auto simp: simplify_map get_prop_def)

lemma sort_after_simplify_descending:
  assumes "\<forall>r \<in> set json. \<exists>m. get_prop r ''memberCount'' = Num m"
  shows "\<exists>L. fst (parseServers e w json
                     (no_extras \<lparr> simplify_opt := True, sort_opt := True \<rparr>)) = Inr L
           \<and> sorted_wrt (\<lambda>a b. num_ge (get_prop a ''members'') (get_prop b ''members'')) L"
  using array_sort_descending [OF simplify_numeric [OF assms]]
  by (simp add: parseServers_def no_extras_def Let_def js_gt_def)

lemma js_gt_numbers: "js_gt e (Num m) (Num T) = (T < m)"
  by (simp add: js_gt_def)

lemma js_gt_members:
  assumes "\<forall>s \<in> set xs. \<exists>m. get_prop s ''members'' = Num m"
  shows "filter (\<lambda>s. js_gt e (get_prop s ''members'') (Num T)) xs
       = filter (\<lambda>s. \<exists>m. get_prop s ''members'' = Num m \<and> T < m) xs"
proof (rule filter_cong [OF refl])
  fix s assume "s \<in> set xs"
  then obtain m where "get_prop s ''members'' = Num m" using assms by blast
  then show "js_gt e (get_prop s ''members'') (Num T)
             = (\<exists>m. get_prop s ''members'' = Num m \<and> T < m)"
    by (simp add: js_gt_numbers)
qed

lemma filter_after_simplify_exact:
  assumes "\<forall>r \<in> set json. \<exists>m. get_prop r ''memberCount'' = Num m" and "0 < T"
  shows "fst (parseServers e w json
               (no_extras \<lparr> simplify_opt := True, filter_opt := True, filterSize := Num T \<rparr>))
       = Inr (filter (\<lambda>s. \<exists>m. get_prop s ''members'' = Num m \<and> T < m) (simplify json))"
  using assms(2) js_gt_members [OF simplify_numeric [OF assms(1)], of e T]
  by (simp add: parseServers_def no_extras_def Let_def js_gt_numbers)

section \<open>The sequential fetch\<close>






lemma sample_urls:
  "url (getUrl 1000 0 None None) =
     ''https://top.gg/api/client/entities/search?platform=discord&entityType=server&amount=1000&skip=0''"
  "url (getUrl 1000 1000 None None) =
     ''https://top.gg/api/client/entities/search?platform=discord&entityType=server&amount=1000&skip=1000''"
  "url (getUrl 500 1000 None None) =
     ''https://top.gg/api/client/entities/search?platform=discord&entityType=server&amount=500&skip=1000''"
  "url (getUrl 500 2000 None None) =
     ''https://top.gg/api/client/entities/search?platform=discord&entityType=server&amount=500&skip=2000''"
  by code_simp+


lemma chunks_default_1500: "chunks_default 1500 = Some [1000, 500]"
  by code_simp







section \<open>Writing the file\<close>






lemma write_out_thrown:
  "fs_writeFile e f (json_stringify e L) = Thrown \<Longrightarrow> write_out e w f L = Inl WriteException"
  by (simp add: write_out_def Let_def)

text \<open>A write that fails in the callback leaves the files as they were and prints the error.\<close>

lemma write_out_failed:
  "fs_writeFile e f (json_stringify e L) = CallbackError err \<Longrightarrow>
     write_out e w f L = Inr (w \<lparr> console := console w @ [err] \<rparr>)"
  by (simp add: write_out_def Let_def)






section \<open>End to end\<close>

text \<open>
  C9. \<^verbatim>\<open>Get(1500, {}, {simplify: true, sort: true, filter: true, filterSize: 100})\<close>, when
  both pages arrive and the records carry numeric member counts: exactly two requests,
  for 1000 records from offset 0 and 500 from offset 1000; the two result lists are
  concatenated in order, every record is projected to \<^verbatim>\<open>{_id, name, members}\<close>, the list is
  sorted by descending \<^verbatim>\<open>members\<close>, and exactly the records with more than 100 members
  are returned.
\<close>

theorem get_1500_end_to_end:
  assumes "request e (length (requested w)) (url (getUrl 1000 0 None None)) = Inr b1"
    and "json_results e b1 = Inr r1"
    and "request e (Suc (length (requested w))) (url (getUrl 500 1000 None None)) = Inr b2"
    and "json_results e b2 = Inr r2"
    and "\<forall>s \<in> set (r1 @ r2). \<exists>m. get_prop s ''memberCount'' = Num m"
  shows "\<exists>L w'.
      getServers e w 1500 no_options
        (no_extras \<lparr> simplify_opt := True, sort_opt := True, filter_opt := True,
                     filterSize := Num 100 \<rparr>) = Some (Inr L, w')
    \<and> requested w' = requested w @
        [''https://top.gg/api/client/entities/search?platform=discord&entityType=server&amount=1000&skip=0'',
         ''https://top.gg/api/client/entities/search?platform=discord&entityType=server&amount=500&skip=1000'']
    \<and> L = filter (\<lambda>s. \<exists>m. get_prop s ''members'' = Num m \<and> 100 < m)
              (array_sort (compare e) (simplify (r1 @ r2)))
    \<and> (\<forall>s \<in> set L. map fst s = [''_id'', ''name'', ''members'']
                    \<and> (\<exists>m. get_prop s ''members'' = Num m \<and> 100 < m))
    \<and> sorted_wrt (\<lambda>a b. num_ge (get_prop a ''members'') (get_prop b ''members'')) L
    \<and> mset L = filter_mset (\<lambda>s. \<exists>m. get_prop s ''members'' = Num m \<and> 100 < m)
                 (mset (simplify (r1 @ r2)))"
proof -
  let ?ex = "no_extras \<lparr> simplify_opt := True, sort_opt := True, filter_opt := True,
                          filterSize := Num 100 \<rparr>"
  let ?P = "\<lambda>s. \<exists>m. get_prop s ''members'' = Num m \<and> (100::int) < m"
  let ?L = "filter ?P (array_sort (compare e) (simplify (r1 @ r2)))"
  let ?w2 = "w \<lparr> requested := requested w @
                 [url (getUrl 1000 0 None None), url (getUrl 500 1000 None None)] \<rparr>"
  have fetch: "fetch_loop e no_options [1000, 500] 0 [] w = (Inr (r1 @ r2), ?w2)"
    using assms(1-4)
    by (simp add: Let_def req2await_def or_zero_id or_null_def no_options_def getUrl_skip)
  have num: "\<forall>s \<in> set (simplify (r1 @ r2)). \<exists>m. get_prop s ''members'' = Num m"
    by (rule simplify_numeric [OF assms(5)])
  then have num': "\<forall>s \<in> set (array_sort (compare e) (simplify (r1 @ r2))).
                     \<exists>m. get_prop s ''members'' = Num m"
    by (simp add: set_array_sort)
  have parse: "parseServers e ?w2 (r1 @ r2) ?ex = (Inr ?L, ?w2)"
    using js_gt_members [OF num', of e 100]
    by (simp add: parseServers_def no_extras_def Let_def js_gt_numbers)
  have run: "getServers e w 1500 no_options ?ex = Some (Inr ?L, ?w2)"
    by (simp del: fetch_loop.simps add: getServers_def chunks_default_1500 fetch parse)
  have reqs: "requested ?w2 = requested w @
        [''https://top.gg/api/client/entities/search?platform=discord&entityType=server&amount=1000&skip=0'',
         ''https://top.gg/api/client/entities/search?platform=discord&entityType=server&amount=500&skip=1000'']"
    by (simp add: sample_urls)
  have keys: "\<forall>s \<in> set ?L. map fst s = [''_id'', ''name'', ''members''] \<and> ?P s"
  proof
    fix s assume "s \<in> set ?L"
    then have "s \<in> set (simplify (r1 @ r2))" and "?P s"
      by (simp_all add: set_array_sort)
    then show "map fst s = [''_id'', ''name'', ''members''] \<and> ?P s"
      using simplify_members [of s "r1 @ r2"] by blast
  qed
  have desc: "sorted_wrt (\<lambda>a b. num_ge (get_prop a ''members'') (get_prop b ''members'')) ?L"
    by (rule sorted_wrt_filter [OF array_sort_descending [OF num]])
  have all: "mset ?L = filter_mset ?P (mset (simplify (r1 @ r2)))"
    by (simp add: mset_array_sort)
  show ?thesis
    apply (rule exI [of _ ?L], rule exI [of _ ?w2])
    apply (intro conjI)
         apply (rule run)
        apply (rule reqs)
       apply (rule refl)
      apply (rule keys)
     apply (rule desc)
    apply (rule all)
    done
qed

lemma sample_sorted:
  "filter (\<lambda>s. \<exists>m. get_prop s ''members'' = Num m \<and> 100 < m)
     (array_sort (compare e)
        (simplify ([server ''1'' ''small'' 50, server ''2'' ''big'' 900] @ [server ''3'' ''mid'' 300])))
   = [[(''_id'', Str ''2''), (''name'', Str ''big''), (''members'', Num 900)],
      [(''_id'', Str ''3''), (''name'', Str ''mid''), (''members'', Num 300)]]"
  by (simp add: simplify_def server_def get_prop_def array_sort_def compare_def js_gt_def)

theorem get_1500_end_to_end_witness:
  "\<exists>w'. getServers sample_env new_world 1500 no_options
        (no_extras \<lparr> simplify_opt := True, sort_opt := True, filter_opt := True,
                     filterSize := Num 100 \<rparr>)
      = Some (Inr [[(''_id'', Str ''2''), (''name'', Str ''big''), (''members'', Num 900)],
                   [(''_id'', Str ''3''), (''name'', Str ''mid''), (''members'', Num 300)]], w')
    \<and> requested w' =
        [''https://top.gg/api/client/entities/search?platform=discord&entityType=server&amount=1000&skip=0'',
         ''https://top.gg/api/client/entities/search?platform=discord&entityType=server&amount=500&skip=1000'']"
proof -
  have a1: "request sample_env (length (requested new_world)) (url (getUrl 1000 0 None None))
              = Inr ''first''"
    by (simp add: sample_env_def new_world_def)
  have a2: "json_results sample_env ''first''
              = Inr [server ''1'' ''small'' 50, server ''2'' ''big'' 900]"
    by (simp add: sample_env_def)
  have a3: "request sample_env (Suc (length (requested new_world)))
              (url (getUrl 500 1000 None None)) = Inr ''later''"
    by (simp add: sample_env_def new_world_def)
  have a4: "json_results sample_env ''later'' = Inr [server ''3'' ''mid'' 300]"
    by (simp add: sample_env_def)
  have a5: "\<forall>s \<in> set ([server ''1'' ''small'' 50, server ''2'' ''big'' 900]
                        @ [server ''3'' ''mid'' 300]).
              \<exists>m. get_prop s ''memberCount'' = Num m"
    by (simp add: server_memberCount)
  obtain L w' where run: "getServers sample_env new_world 1500 no_options
        (no_extras \<lparr> simplify_opt := True, sort_opt := True, filter_opt := True,
                     filterSize := Num 100 \<rparr>) = Some (Inr L, w')"
    and rq: "requested w' = requested new_world @
        [''https://top.gg/api/client/entities/search?platform=discord&entityType=server&amount=1000&skip=0'',
         ''https://top.gg/api/client/entities/search?platform=discord&entityType=server&amount=500&skip=1000'']"
    and L: "L = filter (\<lambda>s. \<exists>m. get_prop s ''members'' = Num m \<and> 100 < m)
              (array_sort (compare sample_env)
                 (simplify ([server ''1'' ''small'' 50, server ''2'' ''big'' 900]
                            @ [server ''3'' ''mid'' 300])))"
    using get_1500_end_to_end [OF a1 a2 a3 a4 a5] by blast
  have "requested new_world = []" by (simp add: new_world_def)
  then show ?thesis
    using run rq L sample_sorted [of sample_env] by (intro exI [of _ w']) simp
qed

end
